theory Spec2Isabelle
  imports Main "HOL-Library.AList"
begin

section \<open>JavaScript values\<close>

text \<open>
  The pages keep the generation result in a state variable of type \<open>any\<close>: it is
  \<open>null\<close> until loaded and afterwards whatever \<open>response.json()\<close> or
  \<open>JSON.parse\<close> returned. \<open>jsval\<close> is that value space: the JSON values, plus
  \<open>undefined\<close>, which reading a missing property yields. Numbers are the integers
  (scene numbers, counts, array lengths); objects are association lists read from the
  left, so that the key order of an object is kept. A \<open>char\<close> stands for one code unit
  of a JavaScript string.
\<close>

datatype jsval =
    JUndefined
  | JNull
  | JBool bool
  | JNum int
  | JStr string
  | JArr "jsval list"
  | JObj "(string \<times> jsval) list"

datatype js_error = TypeError

definition thenE :: "js_error + 'a \<Rightarrow> ('a \<Rightarrow> js_error + 'b) \<Rightarrow> js_error + 'b" where
  "thenE m f = (case m of Inl e \<Rightarrow> Inl e | Inr x \<Rightarrow> f x)"

text \<open>ToBoolean: what \<open>if (v)\<close>, \<open>!v\<close> and \<open>v || w\<close> test.\<close>

fun truthy :: "jsval \<Rightarrow> bool" where
  "truthy JUndefined = False"
| "truthy JNull = False"
| "truthy (JBool b) = b"
| "truthy (JNum n) = (n \<noteq> 0)"
| "truthy (JStr s) = (s \<noteq> [])"
| "truthy (JArr xs) = True"
| "truthy (JObj kvs) = True"

fun nullish :: "jsval \<Rightarrow> bool" where
  "nullish JUndefined = True"
| "nullish JNull = True"
| "nullish v = False"

text \<open>
  \<open>v.k\<close> for the data keys the pages read (none of them is an array index or a member
  of a prototype, \<open>length\<close> apart): a TypeError on \<open>null\<close> and \<open>undefined\<close>,
  the stored value on an object, the length of an array or a string, and
  \<open>undefined\<close> everywhere else.
\<close>

fun get_prop :: "jsval \<Rightarrow> string \<Rightarrow> js_error + jsval" where
  "get_prop JUndefined k = Inl TypeError"
| "get_prop JNull k = Inl TypeError"
| "get_prop (JObj kvs) k = Inr (case map_of kvs k of None \<Rightarrow> JUndefined | Some v \<Rightarrow> v)"
| "get_prop (JArr xs) k = Inr (if k = ''length'' then JNum (int (length xs)) else JUndefined)"
| "get_prop (JStr s) k = Inr (if k = ''length'' then JNum (int (length s)) else JUndefined)"
| "get_prop (JBool b) k = Inr JUndefined"
| "get_prop (JNum n) k = Inr JUndefined"

text \<open>\<open>v?.k\<close> and \<open>v?.a?.b\<close>: a nullish link ends the whole chain with \<open>undefined\<close>.\<close>

definition opt_prop :: "jsval \<Rightarrow> string \<Rightarrow> js_error + jsval" where
  "opt_prop v k = (if nullish v then Inr JUndefined else get_prop v k)"

definition opt_chain2 :: "jsval \<Rightarrow> string \<Rightarrow> string \<Rightarrow> js_error + jsval" where
  "opt_chain2 v a b =
     (if nullish v then Inr JUndefined
      else thenE (get_prop v a) (\<lambda>x. if nullish x then Inr JUndefined else get_prop x b))"

text \<open>\<open>a || b\<close>.\<close>

definition js_or :: "jsval \<Rightarrow> jsval \<Rightarrow> jsval" where
  "js_or a b = (if truthy a then a else b)"

text \<open>
  \<open>xs.forEach(f)\<close> with the state the callback updates threaded through. Only an
  array has the method: on \<open>null\<close> and \<open>undefined\<close> the property read fails, and on
  every other value \<open>forEach\<close> is not a function; both are TypeErrors.
\<close>

fun for_each :: "('s \<Rightarrow> jsval \<Rightarrow> js_error + 's) \<Rightarrow> jsval list \<Rightarrow> 's \<Rightarrow> js_error + 's" where
  "for_each f [] s = Inr s"
| "for_each f (x # xs) s = thenE (f s x) (for_each f xs)"

definition forEach :: "jsval \<Rightarrow> ('s \<Rightarrow> jsval \<Rightarrow> js_error + 's) \<Rightarrow> 's \<Rightarrow> js_error + 's" where
  "forEach v f s = (case v of JArr xs \<Rightarrow> for_each f xs s | _ \<Rightarrow> Inl TypeError)"

subsection \<open>Decimal numerals and object spread\<close>

definition digit_char :: "nat \<Rightarrow> char" where
  "digit_char d = ''0123456789'' ! d"

function show_nat :: "nat \<Rightarrow> string" where
  "show_nat n = (if n < 10 then [digit_char n] else show_nat (n div 10) @ [digit_char (n mod 10)])"
  by pat_completeness auto
termination
  by (relation "measure id") auto

declare show_nat.simps [simp del]

text \<open>
  \<open>show_nat\<close> is the text of an array index; \<open>show_int\<close> is what
  \<open>Number::toString\<close> prints for a safe integer (of magnitude up to \<open>2^53\<close>).
\<close>

definition show_int :: "int \<Rightarrow> string" where
  "show_int i = (if i < 0 then CHR ''-'' # show_nat (nat (- i)) else show_nat (nat i))"

text \<open>
  The own enumerable properties that \<open>{...v}\<close> copies: the fields of an object, the
  indexed elements of an array, the indexed characters of a string, nothing otherwise.
\<close>

definition own_props :: "jsval \<Rightarrow> (string \<times> jsval) list" where
  "own_props v =
     (case v of
        JObj kvs \<Rightarrow> kvs
      | JArr xs \<Rightarrow> zip (map show_nat [0..<length xs]) xs
      | JStr s \<Rightarrow> zip (map show_nat [0..<length s]) (map (\<lambda>c. JStr [c]) s)
      | _ \<Rightarrow> [])"

section \<open>The result normalizer (results page)\<close>

text \<open>
  \<open>getScenes\<close>, \<open>getPrompts\<close>, \<open>getAudioDesign\<close>, \<open>getCharacterAssignments\<close> and
  \<open>getConsistencyMap\<close> read the page's \<open>results\<close> state; here it is their argument.
\<close>

definition getScenes :: "jsval \<Rightarrow> js_error + jsval" where
  "getScenes results =
     thenE (opt_chain2 results ''scenario_analysis'' ''scenes'') (\<lambda>c.
       if truthy c
       then thenE (get_prop results ''scenario_analysis'') (\<lambda>sa. get_prop sa ''scenes'')
       else thenE (opt_prop results ''scenes'') (\<lambda>l. Inr (js_or l (JArr []))))"

text \<open>
  The object pushed for one prompt: \<open>{...ip, scene_id: sp.scene_id, prompt_type: kind,
  time_range: ip.time}\<close>.
\<close>

definition tag_prompt :: "jsval \<Rightarrow> string \<Rightarrow> jsval \<Rightarrow> js_error + jsval" where
  "tag_prompt sp kind ip =
     thenE (get_prop sp ''scene_id'') (\<lambda>sid.
     thenE (get_prop ip ''time'') (\<lambda>t.
       Inr (JObj (AList.update ''time_range'' t
                 (AList.update ''prompt_type'' (JStr kind)
                 (AList.update ''scene_id'' sid (own_props ip)))))))"

definition push_prompt :: "jsval \<Rightarrow> string \<Rightarrow> jsval list \<Rightarrow> jsval \<Rightarrow> js_error + jsval list" where
  "push_prompt sp kind prompts ip = thenE (tag_prompt sp kind ip) (\<lambda>e. Inr (prompts @ [e]))"

text \<open>The body of the outer \<open>forEach\<close>, for one element \<open>sp\<close> of \<open>scene_prompts\<close>.\<close>

definition scene_step :: "jsval list \<Rightarrow> jsval \<Rightarrow> js_error + jsval list" where
  "scene_step prompts sp =
     thenE (get_prop sp ''image_prompts'') (\<lambda>imgs.
     thenE (if truthy imgs then forEach imgs (push_prompt sp ''image'') prompts else Inr prompts)
       (\<lambda>prompts1.
     thenE (get_prop sp ''video_prompts'') (\<lambda>vids.
       if truthy vids then forEach vids (push_prompt sp ''video'') prompts1 else Inr prompts1)))"

definition flattenScenePrompts :: "jsval \<Rightarrow> js_error + jsval" where
  "flattenScenePrompts scene_prompts =
     thenE (forEach scene_prompts scene_step []) (\<lambda>prompts. Inr (JArr prompts))"

definition getPrompts :: "jsval \<Rightarrow> js_error + jsval" where
  "getPrompts results =
     thenE (opt_chain2 results ''prompt_generation'' ''scene_prompts'') (\<lambda>c.
       if truthy c
       then thenE (get_prop results ''prompt_generation'') (\<lambda>pg.
            thenE (get_prop pg ''scene_prompts'') flattenScenePrompts)
       else thenE (opt_prop results ''prompts'') (\<lambda>l. Inr (js_or l (JArr []))))"

definition getAudioDesign :: "jsval \<Rightarrow> js_error + jsval" where
  "getAudioDesign results =
     thenE (opt_chain2 results ''sound_design'' ''audio_design'') (\<lambda>c.
       if truthy c
       then thenE (get_prop results ''sound_design'') (\<lambda>sd. get_prop sd ''audio_design'')
       else thenE (opt_prop results ''audio_design'') (\<lambda>l. Inr (js_or l (JArr []))))"

definition getCharacterAssignments :: "jsval \<Rightarrow> js_error + jsval" where
  "getCharacterAssignments results =
     thenE (opt_chain2 results ''character_analysis'' ''assignments'') (\<lambda>c.
       if truthy c
       then thenE (get_prop results ''character_analysis'') (\<lambda>ca. get_prop ca ''assignments'')
       else Inr (JArr []))"

definition getConsistencyMap :: "jsval \<Rightarrow> js_error + jsval" where
  "getConsistencyMap results =
     thenE (opt_chain2 results ''character_analysis'' ''consistency_map'') (\<lambda>c.
       if truthy c
       then thenE (get_prop results ''character_analysis'') (\<lambda>ca. get_prop ca ''consistency_map'')
       else Inr (JObj []))"

subsection \<open>Reading a result without the error channel\<close>

text \<open>
  For stating properties: \<open>field v k\<close> is \<open>v.k\<close> where that is defined and
  \<open>undefined\<close> on a nullish \<open>v\<close>; \<open>nested v a b\<close> is the value of \<open>v?.a?.b\<close> and
  \<open>legacy v k\<close> that of \<open>v?.k\<close>.
\<close>

definition field :: "jsval \<Rightarrow> string \<Rightarrow> jsval" where
  "field v k = (case get_prop v k of Inl e \<Rightarrow> JUndefined | Inr x \<Rightarrow> x)"

definition nested :: "jsval \<Rightarrow> string \<Rightarrow> string \<Rightarrow> jsval" where
  "nested v a b = field (field v a) b"

definition legacy :: "jsval \<Rightarrow> string \<Rightarrow> jsval" where
  "legacy v k = field v k"

text \<open>
  The nested schema, as far as \<open>getPrompts\<close> reads it: \<open>scene_prompts\<close> is an array
  of objects, and each one's \<open>image_prompts\<close> and \<open>video_prompts\<close> is either absent
  (falsy) or an array of prompt objects. \<open>entries\<close> lists the elements of such an
  optional array.
\<close>

definition entries :: "jsval \<Rightarrow> jsval list" where
  "entries v = (case v of JArr xs \<Rightarrow> xs | _ \<Rightarrow> [])"

definition prompts_ok :: "jsval \<Rightarrow> bool" where
  "prompts_ok v = (case v of JArr xs \<Rightarrow> list_all (\<lambda>x. \<not> nullish x) xs | _ \<Rightarrow> \<not> truthy v)"

definition scene_ok :: "jsval \<Rightarrow> bool" where
  "scene_ok sp \<longleftrightarrow>
     \<not> nullish sp \<and> prompts_ok (field sp ''image_prompts'') \<and> prompts_ok (field sp ''video_prompts'')"

text \<open>
  The source prompts of a nested result in the order the scenes list them: each with
  its scene, its kind and the prompt itself; within a scene the image prompts first.
\<close>

definition scene_sources :: "jsval \<Rightarrow> (jsval \<times> string \<times> jsval) list" where
  "scene_sources sp =
     map (\<lambda>ip. (sp, ''image'', ip)) (entries (field sp ''image_prompts'')) @
     map (\<lambda>vp. (sp, ''video'', vp)) (entries (field sp ''video_prompts''))"

definition sources :: "jsval list \<Rightarrow> (jsval \<times> string \<times> jsval) list" where
  "sources sps = concat (map scene_sources sps)"

text \<open>The entry \<open>tag_prompt\<close> builds, where it builds one.\<close>

definition tagged :: "jsval \<times> string \<times> jsval \<Rightarrow> jsval" where
  "tagged src =
     (case src of (sp, kind, ip) \<Rightarrow>
        (case tag_prompt sp kind ip of Inl e \<Rightarrow> JUndefined | Inr x \<Rightarrow> x))"

text \<open>
  The sort key the specification names: scene number, then prompt kind (image before
  video), then time range. Scene numbers compare as numbers; the order on time ranges
  is a parameter, since the program never compares two of them.
\<close>

definition prompt_key :: "jsval \<Rightarrow> jsval \<times> jsval \<times> jsval" where
  "prompt_key e = (field e ''scene_id'', field e ''prompt_type'', field e ''time_range'')"

definition source_key :: "jsval \<times> string \<times> jsval \<Rightarrow> jsval \<times> jsval \<times> jsval" where
  "source_key src = (case src of (sp, kind, ip) \<Rightarrow> (field sp ''scene_id'', JStr kind, field ip ''time''))"

fun scene_lt :: "jsval \<Rightarrow> jsval \<Rightarrow> bool" where
  "scene_lt (JNum a) (JNum b) = (a < b)"
| "scene_lt x y = False"

definition kind_lt :: "jsval \<Rightarrow> jsval \<Rightarrow> bool" where
  "kind_lt k1 k2 \<longleftrightarrow> k1 = JStr ''image'' \<and> k2 = JStr ''video''"

definition key_le :: "(jsval \<Rightarrow> jsval \<Rightarrow> bool) \<Rightarrow> jsval \<times> jsval \<times> jsval \<Rightarrow> jsval \<times> jsval \<times> jsval \<Rightarrow> bool" where
  "key_le tle x y =
     (case x of (s1, k1, t1) \<Rightarrow> case y of (s2, k2, t2) \<Rightarrow>
        scene_lt s1 s2 \<or> (s1 = s2 \<and> (kind_lt k1 k2 \<or> (k1 = k2 \<and> tle t1 t2))))"

section \<open>CSV export (results page)\<close>

text \<open>
  ToString, as a template literal applies it. The text of a number is the language's
  \<open>Number::toString\<close>, the parameter \<open>num_str\<close>: it prints a double, so it is the
  decimal numeral \<open>show_int\<close> on the safe integers only and switches to rounded digits
  and to exponent notation beyond them. An array joins the strings of its elements
  with commas, \<open>null\<close> and \<open>undefined\<close> elements counting as empty; a plain object
  gives \<open>[object Object]\<close>, unless it has a \<open>toString\<close> entry of its own: parsed
  JSON holds no function, so the conversion then finds nothing to call and raises a
  TypeError.
\<close>

fun join_comma :: "string list \<Rightarrow> string" where
  "join_comma [] = []"
| "join_comma [s] = s"
| "join_comma (s # t # ss) = s @ '','' @ join_comma (t # ss)"

fun to_string :: "(int \<Rightarrow> string) \<Rightarrow> jsval \<Rightarrow> js_error + string"
  and elems_to_strings :: "(int \<Rightarrow> string) \<Rightarrow> jsval list \<Rightarrow> js_error + string list" where
  "to_string num_str JUndefined = Inr ''undefined''"
| "to_string num_str JNull = Inr ''null''"
| "to_string num_str (JBool b) = Inr (if b then ''true'' else ''false'')"
| "to_string num_str (JNum n) = Inr (num_str n)"
| "to_string num_str (JStr s) = Inr s"
| "to_string num_str (JArr xs) =
     thenE (elems_to_strings num_str xs) (\<lambda>ss. Inr (join_comma ss))"
| "to_string num_str (JObj kvs) =
     (if map_of kvs ''toString'' = None then Inr ''[object Object]'' else Inl TypeError)"
| "elems_to_strings num_str [] = Inr []"
| "elems_to_strings num_str (x # xs) =
     thenE (if nullish x then Inr [] else to_string num_str x) (\<lambda>s.
     thenE (elems_to_strings num_str xs) (\<lambda>ss. Inr (s # ss)))"








section \<open>Generation summary (generate page)\<close>

text \<open>
  The Prompts card shows
  \<open>results.prompt_generation?.scene_prompts?.length * 2 || 0\<close>; it is rendered only
  when \<open>results\<close> is truthy. The product is a number or NaN. Multiplication converts
  its operand to a number; for a string operand that is the language's numeral parser,
  the parameter \<open>str_num\<close>, and an array or an object is converted to its string first
  (with \<open>num_str\<close> for the numbers in it).
\<close>

datatype jsnum = Num int | NaN

definition to_number ::
  "(int \<Rightarrow> string) \<Rightarrow> (string \<Rightarrow> jsnum) \<Rightarrow> jsval \<Rightarrow> js_error + jsnum" where
  "to_number num_str str_num v =
     (case v of
        JUndefined \<Rightarrow> Inr NaN
      | JNull \<Rightarrow> Inr (Num 0)
      | JBool b \<Rightarrow> Inr (Num (if b then 1 else 0))
      | JNum n \<Rightarrow> Inr (Num n)
      | JStr s \<Rightarrow> Inr (str_num s)
      | _ \<Rightarrow> thenE (to_string num_str v) (\<lambda>s. Inr (str_num s)))"

fun num_mul :: "jsnum \<Rightarrow> jsnum \<Rightarrow> jsnum" where
  "num_mul (Num a) (Num b) = Num (a * b)"
| "num_mul x y = NaN"

fun num_truthy :: "jsnum \<Rightarrow> bool" where
  "num_truthy (Num n) = (n \<noteq> 0)"
| "num_truthy NaN = False"

definition promptsCard ::
  "(int \<Rightarrow> string) \<Rightarrow> (string \<Rightarrow> jsnum) \<Rightarrow> jsval \<Rightarrow> js_error + jsnum" where
  "promptsCard num_str str_num results =
     thenE (get_prop results ''prompt_generation'') (\<lambda>pg.
     thenE (if nullish pg then Inr JUndefined
            else thenE (get_prop pg ''scene_prompts'') (\<lambda>sps.
                 if nullish sps then Inr JUndefined else get_prop sps ''length'')) (\<lambda>len.
     thenE (to_number num_str str_num len) (\<lambda>n.
       let product = num_mul n (Num 2) in
       Inr (if num_truthy product then product else Num 0))))"

section \<open>Character selection (characters page)\<close>

record character =
  name :: string
  traits :: "string list"
  style :: "string option"
  typical_roles :: "string list option"
  age_range :: "string option"

text \<open>
  The form's draft is a \<open>Partial<Character>\<close>. Its traits are declared a list, but
  the input handler stores the text of the field; \<open>addCustomCharacter\<close> accepts both.
\<close>

datatype traits_input = TraitsText string | TraitsList "string list"

record partial_character =
  p_name :: "string option"
  p_traits :: "traits_input option"
  p_style :: "string option"
  p_typical_roles :: "string list option"
  p_age_range :: "string option"

record characters_page =
  aiChooses :: bool
  characterPool :: "character list"
  selectedCharacters :: "character list"
  customCharacter :: partial_character

definition empty_custom :: partial_character where
  "empty_custom = \<lparr>p_name = None, p_traits = None, p_style = None,
                    p_typical_roles = None, p_age_range = None\<rparr>"

definition toggleCharacter :: "character \<Rightarrow> characters_page \<Rightarrow> characters_page" where
  "toggleCharacter c s =
     (case find (\<lambda>x. name x = name c) (selectedCharacters s) of
        Some found \<Rightarrow>
          s\<lparr>selectedCharacters := filter (\<lambda>x. name x \<noteq> name c) (selectedCharacters s)\<rparr>
      | None \<Rightarrow> s\<lparr>selectedCharacters := selectedCharacters s @ [c]\<rparr>)"

definition removeCharacter :: "string \<Rightarrow> characters_page \<Rightarrow> characters_page" where
  "removeCharacter n s =
     s\<lparr>selectedCharacters := filter (\<lambda>x. name x \<noteq> n) (selectedCharacters s)\<rparr>"

text \<open>\<open>split(',')\<close> and \<open>trim()\<close> on strings of 8-bit code units.\<close>

fun split_on :: "char \<Rightarrow> string \<Rightarrow> string list" where
  "split_on c [] = [[]]"
| "split_on c (x # xs) =
     (if x = c then [] # split_on c xs
      else case split_on c xs of
             [] \<Rightarrow> [[x]]
           | piece # pieces \<Rightarrow> (x # piece) # pieces)"

definition is_space :: "char \<Rightarrow> bool" where
  "is_space c \<longleftrightarrow> c \<in> set [CHR 0x09, CHR 0x0A, CHR 0x0B, CHR 0x0C, CHR 0x0D, CHR 0x20, CHR 0xA0]"

definition trim :: "string \<Rightarrow> string" where
  "trim s = rev (dropWhile is_space (rev (dropWhile is_space s)))"

definition addCustomCharacter :: "characters_page \<Rightarrow> characters_page" where
  "addCustomCharacter s =
     (let cc = customCharacter s in
      case p_name cc of
        None \<Rightarrow> s
      | Some n \<Rightarrow>
          if n = [] then s
          else case p_traits cc of
            None \<Rightarrow> s
          | Some (TraitsText t) \<Rightarrow>
              if t = [] \<or> length t = 0 then s
              else s\<lparr>selectedCharacters := selectedCharacters s @
                       [\<lparr>name = n, traits = map trim (split_on CHR '','' t), style = p_style cc,
                         typical_roles = p_typical_roles cc, age_range = p_age_range cc\<rparr>],
                     customCharacter := empty_custom\<rparr>
          | Some (TraitsList l) \<Rightarrow>
              if length l = 0 then s
              else s\<lparr>selectedCharacters := selectedCharacters s @
                       [\<lparr>name = n, traits = l, style = p_style cc,
                         typical_roles = p_typical_roles cc, age_range = p_age_range cc\<rparr>],
                     customCharacter := empty_custom\<rparr>)"

subsection \<open>The casting configuration\<close>

text \<open>
  \<open>handleContinue\<close> stores \<open>{mode: "ai_decides", pool, must_include}\<close> or
  \<open>{mode: "manual", characters}\<close> under the session-storage key \<open>characters\<close>; the
  skip button removes the key. The generate page reads the key back and sends it as
  \<open>character_config\<close>, \<open>null\<close> when there is none. The storage maps a key to the
  value whose JSON text it holds.
\<close>

datatype casting_config =
    AiDecides (pool: "character list") (must_include: "character list")
  | Manual (characters: "character list")

fun mode :: "casting_config \<Rightarrow> string" where
  "mode (AiDecides p m) = ''ai_decides''"
| "mode (Manual cs) = ''manual''"

type_synonym session_storage = "string \<rightharpoonup> casting_config"

definition handleContinue :: "characters_page \<Rightarrow> session_storage \<Rightarrow> session_storage" where
  "handleContinue s storage =
     (if aiChooses s
      then storage(''characters'' \<mapsto> AiDecides (characterPool s) (selectedCharacters s))
      else storage(''characters'' \<mapsto> Manual (selectedCharacters s)))"

definition skipThisStep :: "session_storage \<Rightarrow> session_storage" where
  "skipThisStep storage = storage(''characters'' := None)"

record generate_request =
  character_config :: "casting_config option"
  include_sound_design :: bool

definition startGeneration :: "bool \<Rightarrow> session_storage \<Rightarrow> generate_request" where
  "startGeneration includeSoundDesign storage =
     \<lparr>character_config = storage ''characters'', include_sound_design = includeSoundDesign\<rparr>"

section \<open>Scenario entry (scenario page)\<close>

record scenario_page =
  scenario :: string
  isLoading :: bool

text \<open>The \<open>disabled\<close> attribute of the submit button.\<close>

definition submitDisabled :: "scenario_page \<Rightarrow> bool" where
  "submitDisabled s \<longleftrightarrow> isLoading s \<or> length (scenario s) < 10"

text \<open>
  \<open>handleSubmit\<close> returns early on a blank scenario and otherwise posts
  \<open>{text: scenario}\<close>; the result is the posted text, if any.
\<close>

definition handleSubmit :: "scenario_page \<Rightarrow> string option" where
  "handleSubmit s = (if trim (scenario s) = [] then None else Some (scenario s))"

section \<open>The precedence rule as the specification words it\<close>

text \<open>
  ``If the nested field is present and non-empty, it wins; otherwise fall back to the
  flat field.''
\<close>

definition present_nonempty :: "jsval \<Rightarrow> bool" where
  "present_nonempty v =
     (case v of
        JUndefined \<Rightarrow> False
      | JNull \<Rightarrow> False
      | JStr s \<Rightarrow> s \<noteq> []
      | JArr xs \<Rightarrow> xs \<noteq> []
      | JObj kvs \<Rightarrow> kvs \<noteq> []
      | _ \<Rightarrow> True)"

definition spec_precedence :: "jsval \<Rightarrow> jsval \<Rightarrow> jsval" where
  "spec_precedence nested_data legacy_data =
     (if present_nonempty nested_data then nested_data else legacy_data)"

section \<open>Example results\<close>

definition prompt_obj :: "string \<Rightarrow> string \<Rightarrow> jsval" where
  "prompt_obj time text = JObj [(''time'', JStr time), (''prompt'', JStr text)]"

text \<open>A partly migrated run: nested scenes, flat prompts.\<close>

definition partly_migrated :: jsval where
  "partly_migrated =
     JObj [(''scenario_analysis'', JObj [(''scenes'', JArr [JObj [(''scene_number'', JNum 1)]])]),
           (''prompts'', JArr [JObj [(''scene_id'', JNum 1), (''prompt_type'', JStr ''image''),
                                    (''time_range'', JStr ''0-3s''), (''prompt'', JStr ''a lair'')]])]"

text \<open>A nested scene list that is present but empty, beside flat scenes.\<close>

definition empty_nested :: jsval where
  "empty_nested =
     JObj [(''scenario_analysis'', JObj [(''scenes'', JArr [])]),
           (''scenes'', JArr [JObj [(''scene_number'', JNum 1)]])]"

text \<open>
  A nested result of two scenes: the first with two image prompts and a video prompt,
  the second with a video prompt and no \<open>image_prompts\<close> field.
\<close>

definition two_scenes :: "jsval list" where
  "two_scenes =
     [JObj [(''scene_id'', JNum 1),
            (''image_prompts'', JArr [prompt_obj ''0-3s'' ''a lair'', prompt_obj ''3-6s'' ''a door'']),
            (''video_prompts'', JArr [prompt_obj ''0-6s'' ''sneaking''])],
      JObj [(''scene_id'', JNum 2),
            (''video_prompts'', JArr [prompt_obj ''0-4s'' ''a glow''])]]"

definition nested_result :: jsval where
  "nested_result = JObj [(''prompt_generation'', JObj [(''scene_prompts'', JArr two_scenes)])]"

text \<open>The same shape with scene 2 listed before scene 1.\<close>

definition unordered_scenes :: "jsval list" where
  "unordered_scenes =
     [JObj [(''scene_id'', JNum 2), (''image_prompts'', JArr [prompt_obj ''0-3s'' ''a glow''])],
      JObj [(''scene_id'', JNum 1), (''image_prompts'', JArr [prompt_obj ''0-3s'' ''a lair''])]]"

definition unordered_result :: jsval where
  "unordered_result =
     JObj [(''prompt_generation'', JObj [(''scene_prompts'', JArr unordered_scenes)])]"

definition any_time_order :: "jsval \<Rightarrow> jsval \<Rightarrow> bool" where
  "any_time_order a b = True"

text \<open>\<open>scene_prompts\<close> stored as an object keyed by scene instead of an array.\<close>

definition keyed_result :: jsval where
  "keyed_result =
     JObj [(''prompt_generation'',
            JObj [(''scene_prompts'',
                   JObj [(''1'', JObj [(''image_prompts'', JArr [prompt_obj ''0-3s'' ''a lair''])])])])]"

text \<open>
  An order on time ranges of the form \<open><start>-<end>s\<close>: by the start offset, the
  leading decimal digits.
\<close>

definition digit_of :: "char \<Rightarrow> nat option" where
  "digit_of c = (if c \<in> set ''0123456789'' then Some (of_char c - 48) else None)"

fun leading_nat :: "nat \<Rightarrow> string \<Rightarrow> nat" where
  "leading_nat acc [] = acc"
| "leading_nat acc (c # cs) =
     (case digit_of c of None \<Rightarrow> acc | Some d \<Rightarrow> leading_nat (10 * acc + d) cs)"

fun start_le :: "jsval \<Rightarrow> jsval \<Rightarrow> bool" where
  "start_le (JStr a) (JStr b) = (leading_nat 0 a \<le> leading_nat 0 b)"
| "start_le x y = False"

section \<open>Selection histories and example page states\<close>

text \<open>The two operations that edit the selection by name, and runs of them.\<close>

datatype selection_op = Toggle character | Remove string

fun apply_op :: "selection_op \<Rightarrow> characters_page \<Rightarrow> characters_page" where
  "apply_op (Toggle c) s = toggleCharacter c s"
| "apply_op (Remove n) s = removeCharacter n s"

fun apply_ops :: "selection_op list \<Rightarrow> characters_page \<Rightarrow> characters_page" where
  "apply_ops [] s = s"
| "apply_ops (x # xs) s = apply_ops xs (apply_op x s)"

definition selected_names :: "characters_page \<Rightarrow> string list" where
  "selected_names s = map name (selectedCharacters s)"

definition alex :: character where
  "alex = \<lparr>name = ''Alex'', traits = [''brave''], style = None, typical_roles = None,
           age_range = None\<rparr>"

definition blake :: character where
  "blake = \<lparr>name = ''Blake'', traits = [''sly'', ''quiet''], style = Some ''dark coat'',
            typical_roles = Some [''villain''], age_range = Some ''40-50''\<rparr>"

definition pool_page :: characters_page where
  "pool_page = \<lparr>aiChooses = True, characterPool = [alex, blake], selectedCharacters = [alex],
                customCharacter = empty_custom\<rparr>"

definition draft_page :: characters_page where
  "draft_page =
     \<lparr>aiChooses = False, characterPool = [], selectedCharacters = [alex],
      customCharacter = \<lparr>p_name = Some ''Casey'', p_traits = Some (TraitsText ''calm, tall''),
                          p_style = None, p_typical_roles = None, p_age_range = Some ''20-30''\<rparr>\<rparr>"

definition stale_storage :: session_storage where
  "stale_storage = [''characters'' \<mapsto> Manual [blake]]"

text \<open>A scenario of 5001 characters.\<close>

definition long_scenario :: string where
  "long_scenario = replicate 5001 CHR ''a''"














text \<open>A draft with a blank name and traits of blanks and commas only.\<close>

definition blank_draft :: characters_page where
  "blank_draft =
     \<lparr>aiChooses = False, characterPool = [], selectedCharacters = [],
      customCharacter = \<lparr>p_name = Some '' '', p_traits = Some (TraitsText '' , ,''),
                          p_style = None, p_typical_roles = None, p_age_range = None\<rparr>\<rparr>"

section \<open>Basic facts\<close>

lemma thenE_Inr [simp]: "thenE (Inr x) f = f x"
  by (simp add: thenE_def)

lemma thenE_Inl [simp]: "thenE (Inl e) f = Inl e"
  by (simp add: thenE_def)

lemma get_prop_field: "\<not> nullish v \<Longrightarrow> get_prop v k = Inr (field v k)"
  by (cases v) (simp_all add: field_def)

lemma field_nullish [simp]: "nullish v \<Longrightarrow> field v k = JUndefined"
  by (cases v) (simp_all add: field_def)

lemma truthy_not_nullish: "truthy v \<Longrightarrow> \<not> nullish v"
  by (cases v) simp_all

lemma field_JObj: "field (JObj kvs) k = (case map_of kvs k of None \<Rightarrow> JUndefined | Some v \<Rightarrow> v)"
  by (simp add: field_def)

lemma opt_prop_eq: "opt_prop v k = Inr (legacy v k)"
  by (simp add: opt_prop_def legacy_def get_prop_field)

lemma opt_chain2_eq: "opt_chain2 v a b = Inr (nested v a b)"
  by (simp add: opt_chain2_def nested_def get_prop_field)

lemma nested_truthy_read:
  assumes "truthy (nested v a b)"
  shows "thenE (get_prop v a) (\<lambda>x. get_prop x b) = Inr (nested v a b)"
proof -
  have nv: "\<not> nullish v"
    using assms by (cases "nullish v") (simp_all add: nested_def)
  have nx: "\<not> nullish (field v a)"
    using assms by (cases "nullish (field v a)") (simp_all add: nested_def)
  show ?thesis
    by (simp add: get_prop_field [OF nv] get_prop_field [OF nx] nested_def)
qed

lemma nested_truthy_read_with:
  assumes "truthy (nested v a b)"
  shows "thenE (get_prop v a) (\<lambda>x. thenE (get_prop x b) f) = f (nested v a b)"
proof -
  have nv: "\<not> nullish v"
    using assms by (cases "nullish v") (simp_all add: nested_def)
  have nx: "\<not> nullish (field v a)"
    using assms by (cases "nullish (field v a)") (simp_all add: nested_def)
  show ?thesis
    by (simp add: get_prop_field [OF nv] get_prop_field [OF nx] nested_def)
qed

section \<open>The accessors in closed form\<close>

lemma getScenes_eq:
  "getScenes r =
     Inr (if truthy (nested r ''scenario_analysis'' ''scenes'')
          then nested r ''scenario_analysis'' ''scenes''
          else js_or (legacy r ''scenes'') (JArr []))"
  by (simp add: getScenes_def opt_chain2_eq opt_prop_eq nested_truthy_read)

lemma getAudioDesign_eq:
  "getAudioDesign r =
     Inr (if truthy (nested r ''sound_design'' ''audio_design'')
          then nested r ''sound_design'' ''audio_design''
          else js_or (legacy r ''audio_design'') (JArr []))"
  by (simp add: getAudioDesign_def opt_chain2_eq opt_prop_eq nested_truthy_read)

lemma getCharacterAssignments_eq:
  "getCharacterAssignments r =
     Inr (if truthy (nested r ''character_analysis'' ''assignments'')
          then nested r ''character_analysis'' ''assignments''
          else JArr [])"
  by (simp add: getCharacterAssignments_def opt_chain2_eq nested_truthy_read)

lemma getConsistencyMap_eq:
  "getConsistencyMap r =
     Inr (if truthy (nested r ''character_analysis'' ''consistency_map'')
          then nested r ''character_analysis'' ''consistency_map''
          else JObj [])"
  by (simp add: getConsistencyMap_def opt_chain2_eq nested_truthy_read)

lemma getPrompts_eq:
  "getPrompts r =
     (if truthy (nested r ''prompt_generation'' ''scene_prompts'')
      then flattenScenePrompts (nested r ''prompt_generation'' ''scene_prompts'')
      else Inr (js_or (legacy r ''prompts'') (JArr [])))"
  by (simp add: getPrompts_def opt_chain2_eq opt_prop_eq nested_truthy_read_with)

section \<open>Flattening a well-formed nested result\<close>

lemma tag_prompt_tagged:
  "\<not> nullish sp \<Longrightarrow> \<not> nullish ip \<Longrightarrow> tag_prompt sp kind ip = Inr (tagged (sp, kind, ip))"
  by (simp add: tagged_def tag_prompt_def get_prop_field)

lemma tagged_key:
  assumes "\<not> nullish sp" "\<not> nullish ip"
  shows "prompt_key (tagged (sp, kind, ip)) = source_key (sp, kind, ip)"
  using assms
  by (simp add: tagged_def tag_prompt_def get_prop_field prompt_key_def source_key_def
      field_JObj update_conv')

lemma push_all:
  "\<not> nullish sp \<Longrightarrow> list_all (\<lambda>x. \<not> nullish x) xs \<Longrightarrow>
   for_each (push_prompt sp kind) xs acc = Inr (acc @ map (\<lambda>ip. tagged (sp, kind, ip)) xs)"
  by (induction xs arbitrary: acc) (simp_all add: push_prompt_def tag_prompt_tagged)

lemma push_optional:
  assumes "\<not> nullish sp" "prompts_ok v"
  shows "(if truthy v then forEach v (push_prompt sp kind) acc else Inr acc) =
         Inr (acc @ map (\<lambda>ip. tagged (sp, kind, ip)) (entries v))"
proof (cases v)
  case (JArr xs)
  with assms show ?thesis
    by (simp add: forEach_def entries_def prompts_ok_def push_all)
qed (use assms in \<open>simp_all add: prompts_ok_def entries_def\<close>)

lemma scene_step_ok:
  assumes "scene_ok sp"
  shows "scene_step acc sp = Inr (acc @ map tagged (scene_sources sp))"
proof -
  from assms have n: "\<not> nullish sp"
    and i: "prompts_ok (field sp ''image_prompts'')"
    and v: "prompts_ok (field sp ''video_prompts'')"
    by (simp_all add: scene_ok_def)
  show ?thesis
    unfolding scene_step_def get_prop_field [OF n] thenE_Inr
      push_optional [OF n i] push_optional [OF n v]
    by (simp add: scene_sources_def o_def)
qed

lemma for_each_scenes:
  "list_all scene_ok sps \<Longrightarrow> for_each scene_step sps acc = Inr (acc @ map tagged (sources sps))"
  by (induction sps arbitrary: acc) (simp_all add: scene_step_ok sources_def)

lemma flatten_ok:
  "list_all scene_ok sps \<Longrightarrow>
   flattenScenePrompts (JArr sps) = Inr (JArr (map tagged (sources sps)))"
  by (simp add: flattenScenePrompts_def forEach_def for_each_scenes)

lemma getPrompts_nested:
  assumes "nested r ''prompt_generation'' ''scene_prompts'' = JArr sps" "list_all scene_ok sps"
  shows "getPrompts r = Inr (JArr (map tagged (sources sps)))"
  using assms by (simp add: getPrompts_eq flatten_ok)

lemma source_parts:
  assumes "list_all scene_ok sps" "(sp, kind, ip) \<in> set (sources sps)"
  shows "\<not> nullish sp \<and> \<not> nullish ip \<and> sp \<in> set sps"
proof -
  from assms(2) obtain sp' where sp': "sp' \<in> set sps" "(sp, kind, ip) \<in> set (scene_sources sp')"
    by (auto simp: sources_def)
  from sp'(1) assms(1) have ok: "scene_ok sp'"
    by (simp add: list_all_iff)
  have eq: "sp = sp'"
    using sp'(2) by (auto simp: scene_sources_def)
  have "ip \<in> set (entries (field sp' ''image_prompts'')) \<or>
        ip \<in> set (entries (field sp' ''video_prompts''))"
    using sp'(2) by (auto simp: scene_sources_def)
  moreover have "\<not> nullish x" if "prompts_ok v" "x \<in> set (entries v)" for v x
    using that by (cases v) (auto simp: prompts_ok_def entries_def list_all_iff)
  ultimately have "\<not> nullish ip"
    using ok by (auto simp: scene_ok_def)
  with ok eq sp'(1) show ?thesis
    by (simp add: scene_ok_def)
qed

lemma tagged_keys:
  assumes "list_all scene_ok sps"
  shows "map prompt_key (map tagged (sources sps)) = map source_key (sources sps)"
proof -
  have "prompt_key (tagged src) = source_key src" if "src \<in> set (sources sps)" for src
  proof -
    obtain sp kind ip where src: "src = (sp, kind, ip)"
      by (cases src) auto
    with that assms have "\<not> nullish sp \<and> \<not> nullish ip"
      using source_parts by blast
    then show ?thesis
      by (simp add: src tagged_key)
  qed
  then show ?thesis by simp
qed

section \<open>Claims about the normalizer\<close>

text \<open>
  C1 (as amended). For every result value, each of scenes, prompts and audio design is
  resolved on its own: the nested field wins exactly when it is present and truthy,
  which an empty array is too, and the accessor then returns the nested data (for
  prompts, its flattening); otherwise it returns the flat legacy field, or an empty
  list when that is missing. So a result with nested scenes and only legacy prompts
  yields the nested scenes and the legacy prompts.
\<close>

theorem normalizer_precedence:
  "getScenes r =
     Inr (if truthy (nested r ''scenario_analysis'' ''scenes'')
          then nested r ''scenario_analysis'' ''scenes''
          else js_or (legacy r ''scenes'') (JArr []))
   \<and> getPrompts r =
     (if truthy (nested r ''prompt_generation'' ''scene_prompts'')
      then flattenScenePrompts (nested r ''prompt_generation'' ''scene_prompts'')
      else Inr (js_or (legacy r ''prompts'') (JArr [])))
   \<and> getAudioDesign r =
     Inr (if truthy (nested r ''sound_design'' ''audio_design'')
          then nested r ''sound_design'' ''audio_design''
          else js_or (legacy r ''audio_design'') (JArr []))"
  using getScenes_eq [of r] getPrompts_eq [of r] getAudioDesign_eq [of r] by simp

theorem normalizer_precedence_witness:
  "getScenes partly_migrated = Inr (JArr [JObj [(''scene_number'', JNum 1)]])
   \<and> getPrompts partly_migrated =
       Inr (JArr [JObj [(''scene_id'', JNum 1), (''prompt_type'', JStr ''image''),
                        (''time_range'', JStr ''0-3s''), (''prompt'', JStr ''a lair'')]])
   \<and> getAudioDesign partly_migrated = Inr (JArr [])"
  using normalizer_precedence [of partly_migrated]
  by (simp add: partly_migrated_def nested_def legacy_def field_def js_or_def)

text \<open>
  The claim as stated fails where the nested field is present but empty: the
  specification's rule falls back to the flat scenes, the accessor returns the empty
  nested list.
\<close>

theorem normalizer_precedence_counterexample:
  "getScenes empty_nested = Inr (JArr [])
   \<and> spec_precedence (nested empty_nested ''scenario_analysis'' ''scenes'')
        (legacy empty_nested ''scenes'') = JArr [JObj [(''scene_number'', JNum 1)]]
   \<and> getScenes empty_nested \<noteq>
       Inr (spec_precedence (nested empty_nested ''scenario_analysis'' ''scenes'')
              (legacy empty_nested ''scenes''))"
  by (simp add: getScenes_eq empty_nested_def nested_def legacy_def field_def js_or_def
      spec_precedence_def present_nonempty_def)

text \<open>
  C2. For a result in the nested schema, the flattened prompt list has one entry for
  each prompt of each scene's \<open>image_prompts\<close> and \<open>video_prompts\<close>, and the entry
  carries the scene's \<open>scene_id\<close>, the kind \<open>image\<close> or \<open>video\<close> of the list it
  came from, and the prompt's \<open>time\<close> as its \<open>time_range\<close>.
\<close>

theorem flattened_prompts_tagged:
  assumes "nested r ''prompt_generation'' ''scene_prompts'' = JArr sps"
    and "list_all scene_ok sps"
  shows "\<exists>out. getPrompts r = Inr (JArr out) \<and>
           list_all2 (\<lambda>e src. case src of (sp, kind, ip) \<Rightarrow>
                        field e ''scene_id'' = field sp ''scene_id'' \<and>
                        field e ''prompt_type'' = JStr kind \<and>
                        field e ''time_range'' = field ip ''time'')
             out (sources sps)"
proof -
  have "list_all2 (\<lambda>e src. prompt_key e = source_key src) (map tagged (sources sps)) (sources sps)"
    using tagged_keys [OF assms(2)] by (simp add: list_all2_conv_all_nth list_eq_iff_nth_eq)
  then have "list_all2 (\<lambda>e src. case src of (sp, kind, ip) \<Rightarrow>
                        field e ''scene_id'' = field sp ''scene_id'' \<and>
                        field e ''prompt_type'' = JStr kind \<and>
                        field e ''time_range'' = field ip ''time'')
               (map tagged (sources sps)) (sources sps)"
    by (rule list_all2_mono) (auto simp: prompt_key_def source_key_def)
  with getPrompts_nested [OF assms] show ?thesis by blast
qed

theorem flattened_prompts_tagged_witness:
  "nested nested_result ''prompt_generation'' ''scene_prompts'' = JArr two_scenes
   \<and> list_all scene_ok two_scenes
   \<and> length (sources two_scenes) = 4
   \<and> (\<exists>out. getPrompts nested_result = Inr (JArr out) \<and>
           list_all2 (\<lambda>e src. case src of (sp, kind, ip) \<Rightarrow>
                        field e ''scene_id'' = field sp ''scene_id'' \<and>
                        field e ''prompt_type'' = JStr kind \<and>
                        field e ''time_range'' = field ip ''time'')
             out (sources two_scenes))"
proof -
  have n: "nested nested_result ''prompt_generation'' ''scene_prompts'' = JArr two_scenes"
    by (simp add: nested_result_def nested_def field_def)
  have ok: "list_all scene_ok two_scenes"
    by (simp add: two_scenes_def scene_ok_def prompts_ok_def field_def prompt_obj_def)
  have len: "length (sources two_scenes) = 4"
    by (simp add: two_scenes_def sources_def scene_sources_def entries_def field_def)
  from n ok len flattened_prompts_tagged [OF n ok] show ?thesis by blast
qed

section \<open>Order of the flattened list\<close>

lemma scene_sources_sorted:
  assumes "sorted_wrt tle (map (\<lambda>p. field p ''time'') (entries (field sp ''image_prompts'')))"
    and "sorted_wrt tle (map (\<lambda>p. field p ''time'') (entries (field sp ''video_prompts'')))"
  shows "sorted_wrt (key_le tle) (map source_key (scene_sources sp))"
proof -
  have same: "sorted_wrt (key_le tle) (map (\<lambda>p. source_key (sp, kind, p)) ps)"
    if "sorted_wrt tle (map (\<lambda>p. field p ''time'') ps)" for kind ps
    using that
    by (induction ps) (auto simp: key_le_def source_key_def)
  show ?thesis
    using same [OF assms(1), of "''image''"] same [OF assms(2), of "''video''"]
    by (auto simp: scene_sources_def sorted_wrt_append o_def key_le_def source_key_def kind_lt_def)
qed

lemma sources_scene_id:
  assumes "src \<in> set (sources sps)"
  shows "\<exists>sp \<in> set sps. fst (source_key src) = field sp ''scene_id''"
  using assms by (auto simp: sources_def scene_sources_def source_key_def)

lemma sorted_sources:
  assumes "sorted_wrt scene_lt (map (\<lambda>sp. field sp ''scene_id'') sps)"
    and "\<forall>sp \<in> set sps.
           sorted_wrt tle (map (\<lambda>p. field p ''time'') (entries (field sp ''image_prompts''))) \<and>
           sorted_wrt tle (map (\<lambda>p. field p ''time'') (entries (field sp ''video_prompts'')))"
  shows "sorted_wrt (key_le tle) (map source_key (sources sps))"
  using assms
proof (induction sps)
  case Nil
  then show ?case by (simp add: sources_def)
next
  case (Cons sp sps)
  have split: "sources (sp # sps) = scene_sources sp @ sources sps"
    by (simp add: sources_def)
  have here: "sorted_wrt (key_le tle) (map source_key (scene_sources sp))"
    using Cons.prems(2) by (simp add: scene_sources_sorted)
  have rest: "sorted_wrt (key_le tle) (map source_key (sources sps))"
    using Cons by simp
  have cross: "key_le tle (source_key x) (source_key y)"
    if x: "x \<in> set (scene_sources sp)" and y: "y \<in> set (sources sps)" for x y
  proof -
    from sources_scene_id [OF y] obtain sp' where sp': "sp' \<in> set sps"
      "fst (source_key y) = field sp' ''scene_id''" by blast
    have "fst (source_key x) = field sp ''scene_id''"
      using x by (auto simp: scene_sources_def source_key_def)
    moreover have "scene_lt (field sp ''scene_id'') (field sp' ''scene_id'')"
      using Cons.prems(1) sp'(1) by auto
    ultimately show ?thesis
      using sp'(2) by (cases "source_key x"; cases "source_key y") (simp add: key_le_def)
  qed
  show ?case
    unfolding split using here rest cross
    by (auto simp: sorted_wrt_append)
qed

text \<open>
  C3 (as amended). For a result in the nested schema, the flattened prompt list keeps
  the order of the input: the scenes in the order \<open>scene_prompts\<close> lists them, within
  a scene the image prompts before the video prompts, each group in its listed order.
  Nothing is sorted. So the list is ordered by scene number, then kind, then time range
  whenever the stored scenes are in strictly ascending scene order and each scene's
  prompt lists are in ascending time order (for any order \<open>tle\<close> on time ranges).
  The list is a function of the result alone, so flattening the same result again
  gives the same list.
\<close>

theorem flattened_prompts_order:
  assumes "nested r ''prompt_generation'' ''scene_prompts'' = JArr sps"
    and "list_all scene_ok sps"
  shows "\<exists>out. getPrompts r = Inr (JArr out) \<and>
           map prompt_key out = map source_key (sources sps) \<and>
           (sorted_wrt scene_lt (map (\<lambda>sp. field sp ''scene_id'') sps) \<and>
            (\<forall>sp \<in> set sps.
               sorted_wrt tle (map (\<lambda>p. field p ''time'') (entries (field sp ''image_prompts''))) \<and>
               sorted_wrt tle (map (\<lambda>p. field p ''time'') (entries (field sp ''video_prompts''))))
            \<longrightarrow> sorted_wrt (key_le tle) (map prompt_key out))"
proof -
  have keys: "map prompt_key (map tagged (sources sps)) = map source_key (sources sps)"
    by (rule tagged_keys [OF assms(2)])
  have "sorted_wrt (key_le tle) (map prompt_key (map tagged (sources sps)))"
    if "sorted_wrt scene_lt (map (\<lambda>sp. field sp ''scene_id'') sps)"
      and "\<forall>sp \<in> set sps.
               sorted_wrt tle (map (\<lambda>p. field p ''time'') (entries (field sp ''image_prompts''))) \<and>
               sorted_wrt tle (map (\<lambda>p. field p ''time'') (entries (field sp ''video_prompts'')))"
    unfolding keys using that by (rule sorted_sources)
  with keys getPrompts_nested [OF assms] show ?thesis by blast
qed

theorem flattened_prompts_order_witness:
  "nested nested_result ''prompt_generation'' ''scene_prompts'' = JArr two_scenes
   \<and> list_all scene_ok two_scenes
   \<and> sorted_wrt scene_lt (map (\<lambda>sp. field sp ''scene_id'') two_scenes)
   \<and> list_all (\<lambda>sp.
        sorted_wrt start_le (map (\<lambda>p. field p ''time'') (entries (field sp ''image_prompts''))) \<and>
        sorted_wrt start_le (map (\<lambda>p. field p ''time'') (entries (field sp ''video_prompts''))))
        two_scenes
   \<and> (\<exists>out. getPrompts nested_result = Inr (JArr out) \<and>
          map prompt_key out =
            [(JNum 1, JStr ''image'', JStr ''0-3s''), (JNum 1, JStr ''image'', JStr ''3-6s''),
             (JNum 1, JStr ''video'', JStr ''0-6s''), (JNum 2, JStr ''video'', JStr ''0-4s'')] \<and>
          sorted_wrt (key_le start_le) (map prompt_key out))"
proof -
  have n: "nested nested_result ''prompt_generation'' ''scene_prompts'' = JArr two_scenes"
    by (simp add: nested_result_def nested_def field_def)
  have ok: "list_all scene_ok two_scenes"
    by (simp add: two_scenes_def scene_ok_def prompts_ok_def field_def prompt_obj_def)
  have sc: "sorted_wrt scene_lt (map (\<lambda>sp. field sp ''scene_id'') two_scenes)"
    by (simp add: two_scenes_def field_def)
  have tm: "list_all (\<lambda>sp.
        sorted_wrt start_le (map (\<lambda>p. field p ''time'') (entries (field sp ''image_prompts''))) \<and>
        sorted_wrt start_le (map (\<lambda>p. field p ''time'') (entries (field sp ''video_prompts''))))
        two_scenes"
    by (simp add: two_scenes_def field_def entries_def prompt_obj_def digit_of_def)
  have src: "map source_key (sources two_scenes) =
            [(JNum 1, JStr ''image'', JStr ''0-3s''), (JNum 1, JStr ''image'', JStr ''3-6s''),
             (JNum 1, JStr ''video'', JStr ''0-6s''), (JNum 2, JStr ''video'', JStr ''0-4s'')]"
    by (simp add: two_scenes_def sources_def scene_sources_def entries_def field_def
        source_key_def prompt_obj_def)
  from flattened_prompts_order [OF n ok, of start_le] sc tm src n ok show ?thesis
    by (auto simp: list_all_iff)
qed

text \<open>
  The claim as stated fails where the stored scenes are not in ascending order: with
  scene 2 listed before scene 1 the flattened list has scene 2 first, whatever the
  order on time ranges.
\<close>

theorem flattened_prompts_order_counterexample:
  "getPrompts unordered_result = Inr (JArr (map tagged (sources unordered_scenes)))
   \<and> map prompt_key (map tagged (sources unordered_scenes)) =
       [(JNum 2, JStr ''image'', JStr ''0-3s''), (JNum 1, JStr ''image'', JStr ''0-3s'')]
   \<and> \<not> sorted_wrt (key_le any_time_order)
         (map prompt_key (map tagged (sources unordered_scenes)))"
proof -
  have n: "nested unordered_result ''prompt_generation'' ''scene_prompts'' = JArr unordered_scenes"
    by (simp add: unordered_result_def nested_def field_def)
  have ok: "list_all scene_ok unordered_scenes"
    by (simp add: unordered_scenes_def scene_ok_def prompts_ok_def field_def prompt_obj_def)
  have keys: "map prompt_key (map tagged (sources unordered_scenes)) =
       [(JNum 2, JStr ''image'', JStr ''0-3s''), (JNum 1, JStr ''image'', JStr ''0-3s'')]"
    unfolding tagged_keys [OF ok]
    by (simp add: unordered_scenes_def sources_def scene_sources_def entries_def field_def
        source_key_def prompt_obj_def)
  have "\<not> sorted_wrt (key_le any_time_order)
         [(JNum 2, JStr ''image'', JStr ''0-3s''), (JNum 1, JStr ''image'', JStr ''0-3s'')]"
    by (simp add: key_le_def kind_lt_def)
  with keys getPrompts_nested [OF n ok] show ?thesis by simp
qed

section \<open>When the prompts accessor raises\<close>

lemma tag_prompt_fails: "nullish sp \<or> nullish ip \<Longrightarrow> tag_prompt sp kind ip = Inl TypeError"
  by (cases sp; cases ip) (simp_all add: tag_prompt_def)

lemma push_fails:
  "\<not> list_all (\<lambda>x. \<not> nullish x) xs \<Longrightarrow> for_each (push_prompt sp kind) xs acc = Inl TypeError"
proof (induction xs arbitrary: acc)
  case Nil
  then show ?case by simp
next
  case (Cons x xs)
  show ?case
  proof (cases "nullish sp \<or> nullish x")
    case True
    then show ?thesis
      by (simp add: push_prompt_def tag_prompt_fails)
  next
    case False
    with Cons show ?thesis
      by (simp add: push_prompt_def tag_prompt_tagged)
  qed
qed

lemma push_optional_fails:
  assumes "\<not> prompts_ok v"
  shows "(if truthy v then forEach v (push_prompt sp kind) acc else Inr acc) = Inl TypeError"
  using assms by (cases v) (simp_all add: prompts_ok_def forEach_def push_fails)

lemma scene_step_fails:
  assumes "\<not> scene_ok sp"
  shows "scene_step acc sp = Inl TypeError"
proof (cases "nullish sp")
  case True
  then show ?thesis
    by (cases sp) (simp_all add: scene_step_def)
next
  case n: False
  show ?thesis
  proof (cases "prompts_ok (field sp ''image_prompts'')")
    case False
    then show ?thesis
      unfolding scene_step_def get_prop_field [OF n] thenE_Inr
      by (simp add: push_optional_fails)
  next
    case i: True
    with n assms have v: "\<not> prompts_ok (field sp ''video_prompts'')"
      by (simp add: scene_ok_def)
    show ?thesis
      unfolding scene_step_def get_prop_field [OF n] thenE_Inr push_optional [OF n i]
      by (simp add: push_optional_fails [OF v])
  qed
qed

lemma for_each_scenes_fails:
  "\<not> list_all scene_ok sps \<Longrightarrow> for_each scene_step sps acc = Inl TypeError"
proof (induction sps arbitrary: acc)
  case Nil
  then show ?case by simp
next
  case (Cons sp sps)
  show ?case
  proof (cases "scene_ok sp")
    case True
    with Cons show ?thesis
      by (simp add: scene_step_ok)
  next
    case False
    then show ?thesis
      by (simp add: scene_step_fails)
  qed
qed

lemma flatten_fails:
  assumes "\<not> (\<exists>sps. v = JArr sps \<and> list_all scene_ok sps)"
  shows "flattenScenePrompts v = Inl TypeError"
  using assms
  by (cases v) (simp_all add: flattenScenePrompts_def forEach_def for_each_scenes_fails)

lemma getPrompts_returns_iff:
  "(\<exists>v. getPrompts r = Inr v) \<longleftrightarrow>
     \<not> truthy (nested r ''prompt_generation'' ''scene_prompts'') \<or>
     (\<exists>sps. nested r ''prompt_generation'' ''scene_prompts'' = JArr sps \<and> list_all scene_ok sps)"
proof (cases "truthy (nested r ''prompt_generation'' ''scene_prompts'')")
  case False
  then show ?thesis
    by (simp add: getPrompts_eq)
next
  case True
  show ?thesis
  proof (cases "\<exists>sps. nested r ''prompt_generation'' ''scene_prompts'' = JArr sps \<and> list_all scene_ok sps")
    case yes: True
    then obtain sps where "nested r ''prompt_generation'' ''scene_prompts'' = JArr sps"
      "list_all scene_ok sps" by blast
    from getPrompts_nested [OF this] yes show ?thesis by simp
  next
    case no: False
    from flatten_fails [OF no] True no show ?thesis
      by (simp add: getPrompts_eq)
  qed
qed

text \<open>
  C4 (as amended). For every input value, \<open>null\<close> and \<open>undefined\<close> included, the
  accessors for scenes, audio design, assignments and the consistency map return
  without an error. The prompts accessor returns without an error exactly when the
  nested \<open>scene_prompts\<close> field is absent (falsy), or is an array of scene objects
  whose \<open>image_prompts\<close> and \<open>video_prompts\<close> are each absent or an array of prompt
  objects. A category that is absent in both schemas resolves to an empty list (an
  empty map for the consistency map), and on \<open>null\<close> or \<open>undefined\<close> every accessor
  returns its empty collection.
\<close>

theorem accessors_total:
  "(\<exists>v. getScenes r = Inr v) \<and> (\<exists>v. getAudioDesign r = Inr v) \<and>
   (\<exists>v. getCharacterAssignments r = Inr v) \<and> (\<exists>v. getConsistencyMap r = Inr v) \<and>
   ((\<exists>v. getPrompts r = Inr v) \<longleftrightarrow>
      \<not> truthy (nested r ''prompt_generation'' ''scene_prompts'') \<or>
      (\<exists>sps. nested r ''prompt_generation'' ''scene_prompts'' = JArr sps \<and>
             list_all scene_ok sps)) \<and>
   (\<not> truthy (nested r ''scenario_analysis'' ''scenes'') \<and> \<not> truthy (legacy r ''scenes'') \<longrightarrow>
      getScenes r = Inr (JArr [])) \<and>
   (\<not> truthy (nested r ''prompt_generation'' ''scene_prompts'') \<and> \<not> truthy (legacy r ''prompts'') \<longrightarrow>
      getPrompts r = Inr (JArr [])) \<and>
   (\<not> truthy (nested r ''sound_design'' ''audio_design'') \<and> \<not> truthy (legacy r ''audio_design'') \<longrightarrow>
      getAudioDesign r = Inr (JArr [])) \<and>
   (\<not> truthy (nested r ''character_analysis'' ''assignments'') \<longrightarrow>
      getCharacterAssignments r = Inr (JArr [])) \<and>
   (\<not> truthy (nested r ''character_analysis'' ''consistency_map'') \<longrightarrow>
      getConsistencyMap r = Inr (JObj [])) \<and>
   (nullish r \<longrightarrow>
      getScenes r = Inr (JArr []) \<and> getPrompts r = Inr (JArr []) \<and>
      getAudioDesign r = Inr (JArr []) \<and> getCharacterAssignments r = Inr (JArr []) \<and>
      getConsistencyMap r = Inr (JObj []))"
proof -
  have total: "(\<exists>v. getScenes r = Inr v) \<and> (\<exists>v. getAudioDesign r = Inr v) \<and>
    (\<exists>v. getCharacterAssignments r = Inr v) \<and> (\<exists>v. getConsistencyMap r = Inr v)"
    by (simp add: getScenes_eq getAudioDesign_eq getCharacterAssignments_eq getConsistencyMap_eq)
  have empty: "getScenes r = Inr (JArr [])"
    if "\<not> truthy (nested r ''scenario_analysis'' ''scenes'')" "\<not> truthy (legacy r ''scenes'')"
    using that by (simp add: getScenes_eq js_or_def)
  have empty_p: "getPrompts r = Inr (JArr [])"
    if "\<not> truthy (nested r ''prompt_generation'' ''scene_prompts'')" "\<not> truthy (legacy r ''prompts'')"
    using that by (simp add: getPrompts_eq js_or_def)
  have empty_a: "getAudioDesign r = Inr (JArr [])"
    if "\<not> truthy (nested r ''sound_design'' ''audio_design'')" "\<not> truthy (legacy r ''audio_design'')"
    using that by (simp add: getAudioDesign_eq js_or_def)
  have empty_c: "getCharacterAssignments r = Inr (JArr [])"
    if "\<not> truthy (nested r ''character_analysis'' ''assignments'')"
    using that by (simp add: getCharacterAssignments_eq)
  have empty_m: "getConsistencyMap r = Inr (JObj [])"
    if "\<not> truthy (nested r ''character_analysis'' ''consistency_map'')"
    using that by (simp add: getConsistencyMap_eq)
  have null: "getScenes r = Inr (JArr []) \<and> getPrompts r = Inr (JArr []) \<and>
      getAudioDesign r = Inr (JArr []) \<and> getCharacterAssignments r = Inr (JArr []) \<and>
      getConsistencyMap r = Inr (JObj [])" if "nullish r"
    using that
    by (simp add: getScenes_eq getPrompts_eq getAudioDesign_eq getCharacterAssignments_eq
        getConsistencyMap_eq nested_def legacy_def js_or_def)
  from total getPrompts_returns_iff [of r] empty empty_p empty_a empty_c empty_m null
  show ?thesis by blast
qed

theorem accessors_total_witness:
  "nullish JNull
   \<and> \<not> truthy (nested JNull ''prompt_generation'' ''scene_prompts'')
   \<and> \<not> truthy (legacy JNull ''prompts'')
   \<and> getScenes JNull = Inr (JArr []) \<and> getPrompts JNull = Inr (JArr [])
   \<and> getAudioDesign JNull = Inr (JArr []) \<and> getCharacterAssignments JNull = Inr (JArr [])
   \<and> getConsistencyMap JNull = Inr (JObj [])
   \<and> nested nested_result ''prompt_generation'' ''scene_prompts'' = JArr two_scenes
   \<and> list_all scene_ok two_scenes
   \<and> (\<exists>v. getPrompts nested_result = Inr v)
   \<and> \<not> truthy (nested nested_result ''scenario_analysis'' ''scenes'')
   \<and> \<not> truthy (legacy nested_result ''scenes'')
   \<and> getScenes nested_result = Inr (JArr [])
   \<and> getAudioDesign nested_result = Inr (JArr [])
   \<and> getCharacterAssignments nested_result = Inr (JArr [])
   \<and> getConsistencyMap nested_result = Inr (JObj [])"
proof -
  have n: "nested nested_result ''prompt_generation'' ''scene_prompts'' = JArr two_scenes"
    by (simp add: nested_result_def nested_def field_def)
  have ok: "list_all scene_ok two_scenes"
    by (simp add: two_scenes_def scene_ok_def prompts_ok_def field_def prompt_obj_def)
  have absent: "\<not> truthy (nested nested_result ''scenario_analysis'' ''scenes'')"
    "\<not> truthy (legacy nested_result ''scenes'')"
    "\<not> truthy (nested nested_result ''sound_design'' ''audio_design'')"
    "\<not> truthy (legacy nested_result ''audio_design'')"
    "\<not> truthy (nested nested_result ''character_analysis'' ''assignments'')"
    "\<not> truthy (nested nested_result ''character_analysis'' ''consistency_map'')"
    by (simp_all add: nested_result_def nested_def legacy_def field_def)
  have null: "nullish JNull"
    "\<not> truthy (nested JNull ''prompt_generation'' ''scene_prompts'')"
    "\<not> truthy (legacy JNull ''prompts'')"
    by (simp_all add: nested_def legacy_def)
  from accessors_total [of JNull] accessors_total [of nested_result]
    n ok absent null
  show ?thesis by simp
qed

text \<open>
  The claim as stated fails for the prompts accessor on a malformed substructure:
  with \<open>scene_prompts\<close> stored as an object instead of an array, \<open>getPrompts\<close> calls a
  \<open>forEach\<close> that is not there and raises a TypeError.
\<close>

theorem accessors_total_counterexample:
  "getPrompts keyed_result = Inl TypeError"
  by (simp add: getPrompts_eq keyed_result_def nested_def field_def flattenScenePrompts_def
      forEach_def)

section \<open>Claims about character selection\<close>

lemma find_Some_holds: "find P xs = Some y \<Longrightarrow> \<exists>x \<in> set xs. P x"
  by (induction xs) (auto split: if_splits)

lemma toggle_selected:
  "selectedCharacters (toggleCharacter c s) =
     (if name c \<in> set (map name (selectedCharacters s))
      then filter (\<lambda>x. name x \<noteq> name c) (selectedCharacters s)
      else selectedCharacters s @ [c])"
proof (cases "find (\<lambda>x. name x = name c) (selectedCharacters s)")
  case None
  then have "name c \<notin> set (map name (selectedCharacters s))"
    by (auto simp: find_None_iff)
  with None show ?thesis
    by (simp add: toggleCharacter_def)
next
  case (Some found)
  then have "\<exists>x \<in> set (selectedCharacters s). name x = name c"
    by (rule find_Some_holds)
  then obtain x where "x \<in> set (selectedCharacters s)" "name x = name c"
    by blast
  then have "name c \<in> set (map name (selectedCharacters s))"
    by (metis image_eqI set_map)
  with Some show ?thesis
    by (simp add: toggleCharacter_def)
qed

lemma remove_selected:
  "selectedCharacters (removeCharacter n s) = filter (\<lambda>x. name x \<noteq> n) (selectedCharacters s)"
  by (simp add: removeCharacter_def)

lemma apply_op_distinct:
  assumes "distinct (selected_names s)"
  shows "distinct (selected_names (apply_op x s))"
proof (cases x)
  case (Toggle c)
  with assms show ?thesis
    by (auto simp: selected_names_def toggle_selected distinct_map_filter)
next
  case (Remove n)
  with assms show ?thesis
    by (simp add: selected_names_def remove_selected distinct_map_filter)
qed

lemma apply_ops_distinct:
  "distinct (selected_names s) \<Longrightarrow> distinct (selected_names (apply_ops ops s))"
  by (induction ops arbitrary: s) (simp_all add: apply_op_distinct)

text \<open>
  C9. The selection is keyed by name. Toggling a character whose name is selected
  removes every selected entry of that name; toggling one whose name is not selected
  appends exactly that entry; removing a name removes every entry of that name. Hence
  no run of toggles and removals turns a selection with distinct names into one with a
  repeated name.
\<close>

theorem selection_keyed_by_name:
  "(name c \<in> set (selected_names s) \<longrightarrow>
      selectedCharacters (toggleCharacter c s) =
        filter (\<lambda>x. name x \<noteq> name c) (selectedCharacters s) \<and>
      name c \<notin> set (selected_names (toggleCharacter c s))) \<and>
   (name c \<notin> set (selected_names s) \<longrightarrow>
      selectedCharacters (toggleCharacter c s) = selectedCharacters s @ [c]) \<and>
   selectedCharacters (removeCharacter n s) = filter (\<lambda>x. name x \<noteq> n) (selectedCharacters s) \<and>
   n \<notin> set (selected_names (removeCharacter n s)) \<and>
   (distinct (selected_names s) \<longrightarrow> distinct (selected_names (apply_ops ops s)))"
  using apply_ops_distinct [of s ops]
  by (auto simp: selected_names_def toggle_selected remove_selected)

theorem selection_keyed_by_name_witness:
  "name alex \<in> set (selected_names pool_page)
   \<and> selectedCharacters (toggleCharacter alex pool_page) = []
   \<and> name blake \<notin> set (selected_names pool_page)
   \<and> selectedCharacters (toggleCharacter blake pool_page) = [alex, blake]
   \<and> selectedCharacters (removeCharacter ''Alex'' pool_page) = []
   \<and> distinct (selected_names pool_page)
   \<and> distinct (selected_names
        (apply_ops [Toggle blake, Toggle alex, Toggle alex, Remove ''Blake''] pool_page))"
proof -
  have a: "name alex \<in> set (selected_names pool_page)"
    by (simp add: selected_names_def pool_page_def)
  have b: "name blake \<notin> set (selected_names pool_page)"
    by (simp add: selected_names_def pool_page_def alex_def blake_def)
  have d: "distinct (selected_names pool_page)"
    by (simp add: selected_names_def pool_page_def)
  have f: "filter (\<lambda>x. name x \<noteq> name alex) (selectedCharacters pool_page) = []"
    "filter (\<lambda>x. name x \<noteq> ''Alex'') (selectedCharacters pool_page) = []"
    "selectedCharacters pool_page @ [blake] = [alex, blake]"
    by (simp_all add: pool_page_def alex_def)
  from selection_keyed_by_name [of alex pool_page "''Alex''"
      "[Toggle blake, Toggle alex, Toggle alex, Remove ''Blake'']"]
    selection_keyed_by_name [of blake pool_page "''Alex''" "[]"] a b d f
  show ?thesis by simp
qed

text \<open>
  C5. The casting configuration sent with the generation request has one of three
  shapes: after continuing in AI mode it is the \<open>ai_decides\<close> configuration with the
  loaded pool and the selected characters as \<open>must_include\<close>; after continuing in
  manual mode it is the \<open>manual\<close> configuration with exactly the selected characters;
  after skipping the step there is none, whatever the storage held before.
\<close>

theorem casting_config_shapes:
  "character_config (startGeneration b (handleContinue s storage)) =
     Some (if aiChooses s then AiDecides (characterPool s) (selectedCharacters s)
           else Manual (selectedCharacters s))
   \<and> map_option mode (character_config (startGeneration b (handleContinue s storage))) =
     Some (if aiChooses s then ''ai_decides'' else ''manual'')
   \<and> character_config (startGeneration b (skipThisStep storage)) = None"
  by (simp add: startGeneration_def handleContinue_def skipThisStep_def)

theorem casting_config_shapes_witness:
  "character_config (startGeneration True (handleContinue pool_page stale_storage)) =
     Some (AiDecides [alex, blake] [alex])
   \<and> character_config (startGeneration True (handleContinue draft_page stale_storage)) =
     Some (Manual [alex])
   \<and> character_config (startGeneration True stale_storage) = Some (Manual [blake])
   \<and> character_config (startGeneration True (skipThisStep stale_storage)) = None"
  using casting_config_shapes [of True pool_page stale_storage]
    casting_config_shapes [of True draft_page stale_storage]
  by (simp add: pool_page_def draft_page_def startGeneration_def stale_storage_def)

lemma split_on_nonempty: "split_on c u \<noteq> []"
  by (induction u) (auto split: list.splits)

lemma split_on_length: "length (split_on c u) = Suc (count_list u c)"
  using split_on_nonempty [of c]
  by (induction u) (auto split: list.splits)

lemma split_on_chars: "(\<Union>p \<in> set (split_on c u). set p) = set u - {c}"
proof (induction u)
  case Nil
  then show ?case by simp
next
  case (Cons x u)
  show ?case
  proof (cases "x = c")
    case True
    with Cons show ?thesis by auto
  next
    case False
    obtain piece pieces where sp: "split_on c u = piece # pieces"
      using split_on_nonempty [of c u] by (cases "split_on c u") auto
    from Cons sp have "set piece \<union> (\<Union>p \<in> set pieces. set p) = set u - {c}"
      by simp
    with False sp show ?thesis
      by auto
  qed
qed

lemma trim_empty_iff: "trim s = [] \<longleftrightarrow> (\<forall>x \<in> set s. is_space x)"
proof (cases "dropWhile is_space s")
  case Nil
  then have "\<forall>x \<in> set s. is_space x"
    by (simp add: dropWhile_eq_Nil_conv)
  moreover have "trim s = []"
    unfolding trim_def Nil by simp
  ultimately show ?thesis
    by simp
next
  case (Cons x xs)
  then have "\<not> is_space x"
    using hd_dropWhile [of is_space s] by auto
  moreover have "x \<in> set s"
    using Cons set_dropWhileD [of x is_space s] by simp
  moreover have "x \<in> set (rev (dropWhile is_space s))"
    using Cons by simp
  ultimately show ?thesis
    by (auto simp: trim_def dropWhile_eq_Nil_conv)
qed

lemma some_trait_iff:
  "(\<exists>tr \<in> set (map trim (split_on c t)). tr \<noteq> []) \<longleftrightarrow> (\<exists>x \<in> set t. x \<noteq> c \<and> \<not> is_space x)"
proof -
  have "(\<exists>tr \<in> set (map trim (split_on c t)). tr \<noteq> []) \<longleftrightarrow>
        (\<exists>p \<in> set (split_on c t). \<exists>x \<in> set p. \<not> is_space x)"
    by (auto simp: trim_empty_iff)
  also have "\<dots> \<longleftrightarrow> (\<exists>x \<in> (\<Union>p \<in> set (split_on c t). set p). \<not> is_space x)"
    by blast
  also have "\<dots> \<longleftrightarrow> (\<exists>x \<in> set t. x \<noteq> c \<and> \<not> is_space x)"
    unfolding split_on_chars by blast
  finally show ?thesis .
qed

text \<open>
  C6 (as amended). Adding a custom character succeeds only when the draft's name and
  traits are both non-empty: with the name missing or the empty string, or the traits
  missing, the empty text or an empty list, the page state is returned unchanged.
  When it succeeds, the character appended to the selection carries the given name
  and the comma-split, trimmed traits (or the given list, when the draft already holds
  one), and the draft is cleared. The trait list has one entry for each
  comma-separated piece of the text, blank pieces giving empty traits; it holds a
  non-empty trait exactly when the text has a character that is neither a comma nor
  white space. Neither the name nor the pieces are tested for being blank.
\<close>

theorem addCustomCharacter_requires_nonempty_fields:
  "(p_name (customCharacter s) = None \<or> p_name (customCharacter s) = Some [] \<or>
    p_traits (customCharacter s) = None \<or> p_traits (customCharacter s) = Some (TraitsText []) \<or>
    p_traits (customCharacter s) = Some (TraitsList [])
    \<longrightarrow> addCustomCharacter s = s) \<and>
   (p_name (customCharacter s) = Some n \<and> n \<noteq> [] \<and>
    p_traits (customCharacter s) = Some (TraitsText t) \<and> t \<noteq> []
    \<longrightarrow> addCustomCharacter s =
          s\<lparr>selectedCharacters := selectedCharacters s @
               [\<lparr>name = n, traits = map trim (split_on CHR '','' t),
                 style = p_style (customCharacter s),
                 typical_roles = p_typical_roles (customCharacter s),
                 age_range = p_age_range (customCharacter s)\<rparr>],
             customCharacter := empty_custom\<rparr>) \<and>
   (p_name (customCharacter s) = Some n \<and> n \<noteq> [] \<and>
    p_traits (customCharacter s) = Some (TraitsList l) \<and> l \<noteq> []
    \<longrightarrow> addCustomCharacter s =
          s\<lparr>selectedCharacters := selectedCharacters s @
               [\<lparr>name = n, traits = l,
                 style = p_style (customCharacter s),
                 typical_roles = p_typical_roles (customCharacter s),
                 age_range = p_age_range (customCharacter s)\<rparr>],
             customCharacter := empty_custom\<rparr>) \<and>
   (selectedCharacters (addCustomCharacter s) \<noteq> selectedCharacters s
    \<longrightarrow> (\<exists>m. p_name (customCharacter s) = Some m \<and> m \<noteq> []) \<and>
        (\<exists>ts. p_traits (customCharacter s) = Some ts \<and> ts \<noteq> TraitsText [] \<and> ts \<noteq> TraitsList [])) \<and>
   length (map trim (split_on CHR '','' t)) = Suc (count_list t CHR '','') \<and>
   ((\<exists>tr \<in> set (map trim (split_on CHR '','' t)). tr \<noteq> []) \<longleftrightarrow>
    (\<exists>x \<in> set t. x \<noteq> CHR '','' \<and> \<not> is_space x))"
proof -
  have state: "(p_name (customCharacter s) = None \<or> p_name (customCharacter s) = Some [] \<or>
    p_traits (customCharacter s) = None \<or> p_traits (customCharacter s) = Some (TraitsText []) \<or>
    p_traits (customCharacter s) = Some (TraitsList [])
    \<longrightarrow> addCustomCharacter s = s) \<and>
   (p_name (customCharacter s) = Some n \<and> n \<noteq> [] \<and>
    p_traits (customCharacter s) = Some (TraitsText t) \<and> t \<noteq> []
    \<longrightarrow> addCustomCharacter s =
          s\<lparr>selectedCharacters := selectedCharacters s @
               [\<lparr>name = n, traits = map trim (split_on CHR '','' t),
                 style = p_style (customCharacter s),
                 typical_roles = p_typical_roles (customCharacter s),
                 age_range = p_age_range (customCharacter s)\<rparr>],
             customCharacter := empty_custom\<rparr>) \<and>
   (p_name (customCharacter s) = Some n \<and> n \<noteq> [] \<and>
    p_traits (customCharacter s) = Some (TraitsList l) \<and> l \<noteq> []
    \<longrightarrow> addCustomCharacter s =
          s\<lparr>selectedCharacters := selectedCharacters s @
               [\<lparr>name = n, traits = l,
                 style = p_style (customCharacter s),
                 typical_roles = p_typical_roles (customCharacter s),
                 age_range = p_age_range (customCharacter s)\<rparr>],
             customCharacter := empty_custom\<rparr>) \<and>
   (selectedCharacters (addCustomCharacter s) \<noteq> selectedCharacters s
    \<longrightarrow> (\<exists>m. p_name (customCharacter s) = Some m \<and> m \<noteq> []) \<and>
        (\<exists>ts. p_traits (customCharacter s) = Some ts \<and> ts \<noteq> TraitsText [] \<and> ts \<noteq> TraitsList []))"
    by (auto simp: addCustomCharacter_def Let_def split: option.splits traits_input.splits)
  have pieces: "length (map trim (split_on CHR '','' t)) = Suc (count_list t CHR '','')"
    by (simp add: split_on_length)
  from state pieces some_trait_iff [of "CHR '',''" t] show ?thesis
    by blast
qed

theorem addCustomCharacter_requires_nonempty_fields_witness:
  "selectedCharacters (addCustomCharacter draft_page) =
     [alex, \<lparr>name = ''Casey'', traits = [''calm'', ''tall''], style = None,
             typical_roles = None, age_range = Some ''20-30''\<rparr>]
   \<and> customCharacter (addCustomCharacter draft_page) = empty_custom
   \<and> length [''calm'', ''tall''] = Suc (count_list ''calm, tall'' CHR '','')
   \<and> list_ex (\<lambda>x. x \<noteq> CHR '','' \<and> \<not> is_space x) ''calm, tall''
   \<and> list_ex (\<lambda>tr. tr \<noteq> []) [''calm'', ''tall'']
   \<and> addCustomCharacter pool_page = pool_page"
proof -
  have t: "map trim (split_on CHR '','' ''calm, tall'') = [''calm'', ''tall'']"
    by (simp add: trim_def is_space_def)
  have c: "list_ex (\<lambda>x. x \<noteq> CHR '','' \<and> \<not> is_space x) ''calm, tall''"
    by (simp add: is_space_def)
  from addCustomCharacter_requires_nonempty_fields [of draft_page "''Casey''" "''calm, tall''" "[]"]
    addCustomCharacter_requires_nonempty_fields [of pool_page "[]" "[]" "[]"] t c
  show ?thesis
    by (simp add: draft_page_def pool_page_def empty_custom_def)
qed

text \<open>
  The claim as stated fails on blank input: a draft whose name is a space and whose
  traits are blanks and commas is added, with three empty traits, although no name
  and no trait were supplied.
\<close>

theorem addCustomCharacter_requires_nonempty_fields_counterexample:
  "p_name (customCharacter blank_draft) = Some '' ''
   \<and> p_traits (customCharacter blank_draft) = Some (TraitsText '' , ,'')
   \<and> selectedCharacters blank_draft = []
   \<and> selectedCharacters (addCustomCharacter blank_draft) =
       [\<lparr>name = '' '', traits = ['''', '''', ''''], style = None, typical_roles = None,
         age_range = None\<rparr>]"
  by (simp add: blank_draft_def addCustomCharacter_def trim_def is_space_def)

section \<open>Claims about the scenario page, the export and the summary\<close>

lemma trim_replicate:
  assumes "\<not> is_space c"
  shows "trim (replicate n c) = replicate n c"
proof -
  have "dropWhile is_space (replicate n c) = replicate n c"
    using assms by (cases n) simp_all
  then show ?thesis
    by (simp add: trim_def)
qed

text \<open>
  C7, at a scenario of 5001 characters: the submit button is enabled and
  \<open>handleSubmit\<close> posts the text. The page checks the lower bound of 10 only.
\<close>

theorem long_scenario_submitted:
  "length long_scenario = 5001
   \<and> \<not> submitDisabled \<lparr>scenario = long_scenario, isLoading = False\<rparr>
   \<and> handleSubmit \<lparr>scenario = long_scenario, isLoading = False\<rparr> = Some long_scenario"
proof -
  have len: "length long_scenario = 5001"
    unfolding long_scenario_def by (rule length_replicate)
  have "\<not> is_space CHR ''a''"
    by (simp add: is_space_def)
  then have tr: "trim long_scenario = long_scenario"
    unfolding long_scenario_def by (rule trim_replicate)
  have ne: "long_scenario \<noteq> []"
    using len by auto
  show ?thesis
    using len tr ne by (simp add: submitDisabled_def handleSubmit_def)
qed



subsection \<open>Reading the export back\<close>










text \<open>
  C10. The Prompts card of the completed generation shows twice the number of entries
  of the nested \<open>scene_prompts\<close> array, whatever those entries contain, and 0 when
  the field is absent. It need not be the length of the flattened prompt list: for two
  scenes with one image prompt each the card shows 4 and the list has 2 entries.
\<close>

theorem prompts_card_counts_scenes:
  "(truthy r \<and> nested r ''prompt_generation'' ''scene_prompts'' = JArr sps \<longrightarrow>
      promptsCard num_str str_num r = Inr (Num (2 * int (length sps)))) \<and>
   (truthy r \<and> nullish (nested r ''prompt_generation'' ''scene_prompts'') \<longrightarrow>
      promptsCard num_str str_num r = Inr (Num 0)) \<and>
   promptsCard num_str str_num unordered_result = Inr (Num 4) \<and>
   getPrompts unordered_result = Inr (JArr (map tagged (sources unordered_scenes))) \<and>
   length (map tagged (sources unordered_scenes)) = 2"
proof -
  have count: "promptsCard num_str str_num r = Inr (Num (2 * int (length sps)))"
    if t: "truthy r" and n: "nested r ''prompt_generation'' ''scene_prompts'' = JArr sps" for r sps
  proof -
    have nr: "\<not> nullish r"
      using t by (rule truthy_not_nullish)
    have np: "\<not> nullish (field r ''prompt_generation'')"
      using n by (cases "nullish (field r ''prompt_generation'')") (simp_all add: nested_def)
    have f: "field (field r ''prompt_generation'') ''scene_prompts'' = JArr sps"
      using n by (simp add: nested_def)
    show ?thesis
      by (simp add: promptsCard_def get_prop_field [OF nr] get_prop_field [OF np] np f
          to_number_def Let_def)
  qed
  have absent: "promptsCard num_str str_num r = Inr (Num 0)"
    if t: "truthy r" and n: "nullish (nested r ''prompt_generation'' ''scene_prompts'')"
  proof -
    have nr: "\<not> nullish r"
      using t by (rule truthy_not_nullish)
    show ?thesis
    proof (cases "nullish (field r ''prompt_generation'')")
      case True
      then show ?thesis
        by (simp add: promptsCard_def get_prop_field [OF nr] to_number_def Let_def)
    next
      case False
      with n show ?thesis
        by (simp add: promptsCard_def get_prop_field [OF nr] get_prop_field [OF False]
            nested_def to_number_def Let_def)
    qed
  qed
  have n: "nested unordered_result ''prompt_generation'' ''scene_prompts'' = JArr unordered_scenes"
    by (simp add: unordered_result_def nested_def field_def)
  have ok: "list_all scene_ok unordered_scenes"
    by (simp add: unordered_scenes_def scene_ok_def prompts_ok_def field_def prompt_obj_def)
  have t: "truthy unordered_result"
    by (simp add: unordered_result_def)
  have card: "promptsCard num_str str_num unordered_result = Inr (Num 4)"
    using count [OF t n] by (simp add: unordered_scenes_def)
  have len: "length (map tagged (sources unordered_scenes)) = 2"
    by (simp add: unordered_scenes_def sources_def scene_sources_def entries_def field_def)
  from count [of r sps] absent card getPrompts_nested [OF n ok] len show ?thesis
    by blast
qed

theorem prompts_card_counts_scenes_witness:
  "truthy nested_result
   \<and> nested nested_result ''prompt_generation'' ''scene_prompts'' = JArr two_scenes
   \<and> promptsCard show_int (\<lambda>s. NaN) nested_result = Inr (Num 4)
   \<and> truthy partly_migrated
   \<and> nullish (nested partly_migrated ''prompt_generation'' ''scene_prompts'')
   \<and> promptsCard show_int (\<lambda>s. NaN) partly_migrated = Inr (Num 0)"
proof -
  have a: "truthy nested_result"
    "nested nested_result ''prompt_generation'' ''scene_prompts'' = JArr two_scenes"
    "length two_scenes = 2"
    by (simp_all add: nested_result_def nested_def field_def two_scenes_def)
  have b: "truthy partly_migrated"
    "nullish (nested partly_migrated ''prompt_generation'' ''scene_prompts'')"
    by (simp_all add: partly_migrated_def nested_def field_def)
  from prompts_card_counts_scenes [of nested_result two_scenes show_int "\<lambda>s. NaN"]
    prompts_card_counts_scenes [of partly_migrated "[]" show_int "\<lambda>s. NaN"] a b
  show ?thesis by simp
qed

end
